theory Spec2Isabelle
  imports Complex_Main "HOL-Library.Sublist"
begin

section \<open>Values, dictionaries and errors\<close>

text \<open>
  The module \<^verbatim>\<open>atlite/resource.py\<close> works on Python dictionaries with string keys whose
  entries are floats, arrays of floats or strings. Floats are modelled as real numbers:
  every statement below is about exact arithmetic, rounding is outside the model.
\<close>

datatype pyval = Num real | Arr "real list" | Str string

type_synonym dict = "string \<rightharpoonup> pyval"

datatype error =
    KeyError string
  | ValueError string
  | TypeError
  | AttributeError
  | IOError

text \<open>\<^verbatim>\<open>d[k]\<close>: a missing key raises \<^verbatim>\<open>KeyError\<close>.\<close>

definition getitem :: "dict \<Rightarrow> string \<Rightarrow> error + pyval" where
  "getitem d k = (case d k of None \<Rightarrow> Inl (KeyError k) | Some v \<Rightarrow> Inr v)"

text \<open>\<^verbatim>\<open>d.setdefault(k, v)\<close>: returns the entry of \<open>k\<close>, storing \<open>v\<close> first when \<open>k\<close> is absent.
  The dictionary is changed in place; the model returns it next to the value.\<close>

definition setdefault :: "dict \<Rightarrow> string \<Rightarrow> pyval \<Rightarrow> pyval \<times> dict" where
  "setdefault d k v = (case d k of None \<Rightarrow> (v, d(k \<mapsto> v)) | Some w \<Rightarrow> (w, d))"

section \<open>The numpy and scipy functions the module calls\<close>

text \<open>
  These are library functions, modelled by their documented results over the reals.

  \<^verbatim>\<open>np.max\<close> of an empty array raises \<^verbatim>\<open>ValueError\<close>; of a scalar it is the scalar.
\<close>

definition np_max :: "pyval \<Rightarrow> error + pyval" where
  "np_max v = (case v of
       Arr [] \<Rightarrow> Inl (ValueError ''zero-size array to reduction operation maximum which has no identity'')
     | Arr (x # xs) \<Rightarrow> Inr (Num (foldl max x xs))
     | Num x \<Rightarrow> Inr (Num x)
     | Str s \<Rightarrow> Inl TypeError)"

text \<open>\<^verbatim>\<open>np.linspace(start, stop, num)\<close>: \<open>num\<close> evenly spaced samples, the last one set to
  \<open>stop\<close>.\<close>

definition np_linspace :: "real \<Rightarrow> real \<Rightarrow> nat \<Rightarrow> real list" where
  "np_linspace start stop num =
     (let step = (stop - start) / real (num - 1);
          y = map (\<lambda>i. real i * step + start) [0..<num]
      in if num > 1 then y[num - 1 := stop] else y)"

text \<open>
  \<^verbatim>\<open>np.interp(x, xp, fp)\<close> for increasing \<open>xp\<close>: the value at \<open>x\<close> of the piecewise linear
  function through the points \<open>(xp, fp)\<close>, with \<open>fp[-1]\<close> to the right of the last sample
  point and \<open>fp[0]\<close> to the left of the first. \<open>interp_seg\<close> is the search for the
  interval \<open>xp[j] \<le> x < xp[j+1]\<close> followed by numpy's evaluation
  \<^verbatim>\<open>slope*(x - xp[j]) + fp[j]\<close>.
\<close>

fun interp_seg :: "real \<Rightarrow> (real \<times> real) list \<Rightarrow> real" where
  "interp_seg x [] = 0"
| "interp_seg x [(x0, y0)] = y0"
| "interp_seg x ((x0, y0) # (x1, y1) # ps) =
     (if x < x1 then
        (if x0 = x then y0 else (y1 - y0) / (x1 - x0) * (x - x0) + y0)
      else interp_seg x ((x1, y1) # ps))"

definition interp1 :: "real list \<Rightarrow> real list \<Rightarrow> real \<Rightarrow> real" where
  "interp1 xp fp x =
     (if x > last xp then last fp
      else if x < hd xp then hd fp
      else interp_seg x (zip xp fp))"

definition np_interp :: "real list \<Rightarrow> pyval \<Rightarrow> pyval \<Rightarrow> error + real list" where
  "np_interp x xp fp = (case (xp, fp) of
       (Arr xs, Arr ys) \<Rightarrow>
         if xs = [] then Inl (ValueError ''array of sample points is empty'')
         else if length ys \<noteq> length xs then Inl (ValueError ''fp and xp are not of the same length.'')
         else Inr (map (interp1 xs ys) x)
     | _ \<Rightarrow> Inl (ValueError ''object of too small depth for desired array''))"

text \<open>
  \<^verbatim>\<open>scipy.signal.fftconvolve(in1, in2, mode='same')\<close>: the linear convolution of the two
  arrays, cut to the length of \<open>in1\<close> around its centre. This is the value scipy
  approximates: scipy computes it with a Fourier transform in double precision, and its
  result differs from the exact sum by round-off. The definition therefore fixes which
  sum is computed and in which alignment; it says nothing about the digits the code
  returns beyond that, in particular nothing about the sign of an entry whose exact value
  is close to zero.
\<close>

definition convolve_full :: "real list \<Rightarrow> real list \<Rightarrow> real list" where
  "convolve_full a b =
     (if a = [] \<or> b = [] then []
      else map (\<lambda>k. sum_list (map (\<lambda>j. if j \<le> k \<and> k - j < length b then a ! j * b ! (k - j) else 0)
                                  [0..<length a]))
               [0..<length a + length b - 1])"

definition centered :: "real list \<Rightarrow> nat \<Rightarrow> real list" where
  "centered arr newshape = take newshape (drop ((length arr - newshape) div 2) arr)"

definition fftconvolve_same :: "real list \<Rightarrow> real list \<Rightarrow> real list" where
  "fftconvolve_same in1 in2 = centered (convolve_full in1 in2) (length in1)"

section \<open>Loading configurations\<close>

text \<open>
  Reading a YAML file from the configured directory and querying the turbine database are
  done by code outside this module; the model takes them as parameters. A loader answers
  with an error, with nothing (\<^verbatim>\<open>None\<close>) or with the dictionary it read.
\<close>

record env =
  download_turbineconf :: "string \<Rightarrow> error + dict option"
  load_windturbine_yaml :: "string \<Rightarrow> error + dict option"
  load_solarpanel_yaml :: "string \<Rightarrow> error + dict option"

text \<open>A configuration is named by a string or given as a dictionary.\<close>

datatype config_arg = Name string | Config dict

text \<open>
  \<open>get_windturbineconfig\<close> for a string argument, the only way the functions below call
  it: a name starting with \<^verbatim>\<open>oedb:\<close> goes to the database, any other name to the local
  file of that name.
\<close>

definition get_windturbineconfig :: "env \<Rightarrow> string \<Rightarrow> error + dict" where
  "get_windturbineconfig e turbine =
     (case (if prefix ''oedb:'' turbine then download_turbineconf e turbine
            else load_windturbine_yaml e turbine) of
        Inl err \<Rightarrow> Inl err
      | Inr None \<Rightarrow> Inl (ValueError ''No matching turbine configuration found.'')
      | Inr (Some turbineconf) \<Rightarrow>
          (case getitem turbineconf ''V'' of Inl err \<Rightarrow> Inl err | Inr V \<Rightarrow>
          (case getitem turbineconf ''POW'' of Inl err \<Rightarrow> Inl err | Inr POW \<Rightarrow>
          (case getitem turbineconf ''HUB_HEIGHT'' of Inl err \<Rightarrow> Inl err | Inr hub_height \<Rightarrow>
          (case np_max POW of Inl err \<Rightarrow> Inl err | Inr P \<Rightarrow>
             Inr [''V'' \<mapsto> V, ''POW'' \<mapsto> POW, ''hub_height'' \<mapsto> hub_height, ''P'' \<mapsto> P])))))"

definition get_solarpanelconfig :: "env \<Rightarrow> string \<Rightarrow> error + dict option" where
  "get_solarpanelconfig e panel = load_solarpanel_yaml e panel"

section \<open>Rated capacity\<close>

text \<open>
  \<open>solarpanel_rated_capacity_per_unit\<close> answers with an error, with \<^verbatim>\<open>None\<close> (the function
  ends without a \<^verbatim>\<open>return\<close>) or with a value.
\<close>

definition bofinger_capacity :: "pyval \<Rightarrow> pyval \<Rightarrow> pyval \<Rightarrow> error + pyval option" where
  "bofinger_capacity A B C = (case (A, B, C) of
       (Num a, Num b, Num c) \<Rightarrow> Inr (Some (Num ((a + b * 1000 + c * ln 1000) * 1000)))
     | _ \<Rightarrow> Inl TypeError)"

definition solarpanel_rated_capacity_per_unit :: "env \<Rightarrow> config_arg \<Rightarrow> error + pyval option" where
  "solarpanel_rated_capacity_per_unit e panel =
     (case (case panel of Name n \<Rightarrow> get_solarpanelconfig e n | Config d \<Rightarrow> Inr (Some d)) of
        Inl err \<Rightarrow> Inl err
      | Inr None \<Rightarrow> Inl AttributeError
      | Inr (Some p) \<Rightarrow>
          (let model = (case p ''model'' of None \<Rightarrow> Str ''huld'' | Some m \<Rightarrow> m)
           in if model = Str ''huld'' then
                (case getitem p ''efficiency'' of Inl err \<Rightarrow> Inl err | Inr v \<Rightarrow> Inr (Some v))
              else if model = Str ''bofinger'' then
                (case getitem p ''A'' of Inl err \<Rightarrow> Inl err | Inr A \<Rightarrow>
                (case getitem p ''B'' of Inl err \<Rightarrow> Inl err | Inr B \<Rightarrow>
                (case getitem p ''C'' of Inl err \<Rightarrow> Inl err | Inr C \<Rightarrow>
                   bofinger_capacity A B C)))
              else Inr None))"

definition windturbine_rated_capacity_per_unit :: "env \<Rightarrow> config_arg \<Rightarrow> error + pyval" where
  "windturbine_rated_capacity_per_unit e turbine =
     (case (case turbine of Name n \<Rightarrow> get_windturbineconfig e n | Config d \<Rightarrow> Inr d) of
        Inl err \<Rightarrow> Inl err
      | Inr t \<Rightarrow> getitem t ''P'')"

section \<open>Smoothing the power curve\<close>

text \<open>The Gaussian kernel of \<open>windturbine_smooth\<close>, at one velocity.\<close>

definition kernel :: "real \<Rightarrow> real \<Rightarrow> real \<Rightarrow> real" where
  "kernel sigma Delta_v v_0 =
     1 / sqrt (2 * pi * sigma * sigma) *
     exp (- (v_0 - Delta_v) * (v_0 - Delta_v) / (2 * sigma * sigma))"

text \<open>
  The inner function \<open>smooth\<close>; \<open>eta\<close>, \<open>Delta_v\<close> and \<open>sigma\<close> are the variables it reads
  from the enclosing call. An entry that is not a number makes the arithmetic raise.
\<close>

definition smooth :: "pyval \<Rightarrow> pyval \<Rightarrow> pyval \<Rightarrow> pyval \<Rightarrow> pyval \<Rightarrow> error + real list \<times> real list" where
  "smooth eta Delta_v sigma velocities pow =
     (let velocities_reg = np_linspace (-50) 50 1001
      in case np_interp velocities_reg velocities pow of
           Inl err \<Rightarrow> Inl err
         | Inr power_reg \<Rightarrow>
            (case (sigma, Delta_v) of
               (Num sg, Num dv) \<Rightarrow>
                 (let kernel_reg = map (kernel sg dv) velocities_reg;
                      convolution = map (\<lambda>c. (1 / 10) * c) (fftconvolve_same power_reg kernel_reg);
                      velocities_new = np_linspace 0 35 72
                  in case eta of
                       Num et \<Rightarrow>
                         Inr (velocities_new,
                              map (\<lambda>y. et * y) (map (interp1 velocities_reg convolution) velocities_new))
                     | _ \<Rightarrow> Inl TypeError)
             | _ \<Rightarrow> Inl TypeError))"

text \<open>
  The state a call can change: the dictionary bound to the default of \<open>params\<close> when the
  function was defined, the dictionaries of the caller (by address) and the log.
  An address that holds no dictionary stands for an object of another type.
\<close>

record state =
  default_params :: dict
  heap :: "nat \<rightharpoonup> dict"
  logged :: "string list"

datatype params_arg = Omitted | Ref nat

text \<open>Where the dictionary named \<open>params\<close> lives after line 146.\<close>

datatype params_loc = Shared | Caller nat | Fresh

definition locate_params :: "state \<Rightarrow> params_arg \<Rightarrow> params_loc" where
  "locate_params s params = (case params of
       Omitted \<Rightarrow> Shared
     | Ref a \<Rightarrow> (case heap s a of None \<Rightarrow> Fresh | Some d \<Rightarrow> Caller a))"

definition read_params :: "state \<Rightarrow> params_loc \<Rightarrow> dict" where
  "read_params s loc = (case loc of
       Shared \<Rightarrow> default_params s
     | Caller a \<Rightarrow> (case heap s a of None \<Rightarrow> Map.empty | Some d \<Rightarrow> d)
     | Fresh \<Rightarrow> Map.empty)"

definition write_params :: "state \<Rightarrow> params_loc \<Rightarrow> dict \<Rightarrow> state" where
  "write_params s loc d = (case loc of
       Shared \<Rightarrow> s\<lparr>default_params := d\<rparr>
     | Caller a \<Rightarrow> s\<lparr>heap := (heap s)(a \<mapsto> d)\<rparr>
     | Fresh \<Rightarrow> s)"

definition oversmoothing_msg :: string where
  "oversmoothing_msg =
     ''Oversmoothing detected with parameters {p}. Turbine generates energy at 0 m/s wind speeds''"

text \<open>\<^verbatim>\<open>any(POW[np.where(V == 0.0)] > 1e-2)\<close>\<close>

definition oversmoothed :: "real list \<Rightarrow> real list \<Rightarrow> bool" where
  "oversmoothed V POW = list_ex (\<lambda>(v, p). v = 0 \<and> p > 1 / 100) (zip V POW)"

text \<open>\<^verbatim>\<open>logger.warn(msg)\<close>\<close>

definition logger_warn :: "state \<Rightarrow> string \<Rightarrow> state" where
  "logger_warn s msg = s\<lparr>logged := logged s @ [msg]\<rparr>"

definition windturbine_smooth :: "state \<Rightarrow> nat \<Rightarrow> params_arg \<Rightarrow> state \<times> (error + dict)" where
  "windturbine_smooth s turbine params =
     (let loc = locate_params s params;
          (eta, d1) = setdefault (read_params s loc) ''eta'' (Num (95 / 100));
          (Delta_v, d2) = setdefault d1 ''Delta_v'' (Num (127 / 100));
          (sigma, d3) = setdefault d2 ''sigma'' (Num (229 / 100));
          s1 = write_params s loc d3
      in case heap s1 turbine of
           None \<Rightarrow> (s1, Inl AttributeError)
         | Some t0 \<Rightarrow>
            (case getitem t0 ''V'' of Inl err \<Rightarrow> (s1, Inl err) | Inr V \<Rightarrow>
            (case getitem t0 ''POW'' of Inl err \<Rightarrow> (s1, Inl err) | Inr POW \<Rightarrow>
            (case smooth eta Delta_v sigma V POW of Inl err \<Rightarrow> (s1, Inl err) | Inr (V_new, POW_new) \<Rightarrow>
            (case np_max (Arr POW_new) of Inl err \<Rightarrow> (s1, Inl err) | Inr P \<Rightarrow>
               (let t1 = t0(''V'' \<mapsto> Arr V_new, ''POW'' \<mapsto> Arr POW_new, ''P'' \<mapsto> P);
                    s2 = (if oversmoothed V_new POW_new
                          then logger_warn s1 oversmoothing_msg else s1)
                in (s2, Inr t1)))))))"

section \<open>Named parts of a call\<close>

text \<open>The local variables of \<open>smooth\<close>, for numeric entries.\<close>

definition velocities_reg :: "real list" where
  "velocities_reg = np_linspace (-50) 50 1001"

definition velocities_new :: "real list" where
  "velocities_new = np_linspace 0 35 72"

definition power_reg :: "real list \<Rightarrow> real list \<Rightarrow> real list" where
  "power_reg vs ps = map (interp1 vs ps) velocities_reg"

definition kernel_reg :: "real \<Rightarrow> real \<Rightarrow> real list" where
  "kernel_reg sg dv = map (kernel sg dv) velocities_reg"

definition convolution :: "real \<Rightarrow> real \<Rightarrow> real list \<Rightarrow> real list \<Rightarrow> real list" where
  "convolution sg dv vs ps =
     map (\<lambda>c. (1 / 10) * c) (fftconvolve_same (power_reg vs ps) (kernel_reg sg dv))"

definition power_new :: "real \<Rightarrow> real \<Rightarrow> real \<Rightarrow> real list \<Rightarrow> real list \<Rightarrow> real list" where
  "power_new et dv sg vs ps =
     map (\<lambda>y. et * y) (map (interp1 velocities_reg (convolution sg dv vs ps)) velocities_new)"

text \<open>
  The dictionary named \<open>params\<close> after the three calls of \<^verbatim>\<open>setdefault\<close>, and the state
  once that dictionary has been written back.
\<close>

definition fill_defaults :: "dict \<Rightarrow> dict" where
  "fill_defaults d =
     snd (setdefault (snd (setdefault (snd (setdefault d ''eta'' (Num (95 / 100))))
                                      ''Delta_v'' (Num (127 / 100))))
                     ''sigma'' (Num (229 / 100)))"

definition params_dict :: "state \<Rightarrow> params_arg \<Rightarrow> dict" where
  "params_dict s params = fill_defaults (read_params s (locate_params s params))"

definition after_params :: "state \<Rightarrow> params_arg \<Rightarrow> state" where
  "after_params s params =
     write_params s (locate_params s params) (params_dict s params)"

text \<open>The default entries of \<open>params\<close>, and the states in which the shared default
  dictionary holds nothing but default entries.\<close>

definition default_value :: dict where
  "default_value = [''eta'' \<mapsto> Num (95 / 100), ''Delta_v'' \<mapsto> Num (127 / 100),
                    ''sigma'' \<mapsto> Num (229 / 100)]"

definition defaults_intact :: "state \<Rightarrow> bool" where
  "defaults_intact s = (\<forall>k v. default_params s k = Some v \<longrightarrow> default_value k = Some v)"

text \<open>What a caller can compare of two results: the error, or the curve and rated power.\<close>

definition outcome :: "error + dict \<Rightarrow> error + pyval option \<times> pyval option \<times> pyval option" where
  "outcome r = (case r of Inl err \<Rightarrow> Inl err | Inr t \<Rightarrow> Inr (t ''V'', t ''POW'', t ''P''))"

section \<open>Example inputs\<close>

text \<open>A small environment: one turbine file with a six-point curve, one with an empty
  curve, no database and no panel files.\<close>

definition example_env :: env where
  "example_env = \<lparr>
     download_turbineconf = (\<lambda>n. Inr None),
     load_windturbine_yaml = (\<lambda>n. if n = ''Demo''
        then Inr (Some [''V'' \<mapsto> Arr [0, 5, 10, 15, 20, 25],
                        ''POW'' \<mapsto> Arr [0, 0, 100, 400, 800, 800],
                        ''HUB_HEIGHT'' \<mapsto> Num 80])
        else if n = ''Blank''
        then Inr (Some [''V'' \<mapsto> Arr [], ''POW'' \<mapsto> Arr [], ''HUB_HEIGHT'' \<mapsto> Num 80])
        else Inl IOError),
     load_solarpanel_yaml = (\<lambda>n. Inl IOError) \<rparr>"

text \<open>A state with one turbine dictionary (address 0) and one parameter dictionary
  (address 1), before any call.\<close>

definition demo_turbine :: dict where
  "demo_turbine = [''V'' \<mapsto> Arr [0, 5, 10, 15, 20, 25], ''POW'' \<mapsto> Arr [0, 0, 100, 400, 800, 800],
                   ''hub_height'' \<mapsto> Num 80, ''P'' \<mapsto> Num 800]"

definition example_state :: state where
  "example_state = \<lparr> default_params = Map.empty,
                      heap = [0 \<mapsto> demo_turbine, 1 \<mapsto> [''eta'' \<mapsto> Num (9 / 10)]],
                      logged = [] \<rparr>"

section \<open>The algorithm in the words of the specification\<close>

text \<open>
  These definitions follow the specification, not the code; the theorem on the smoothing
  algorithm compares the two. The regular grid has spacing \<open>0.1\<close> from \<open>-50\<close>, the output
  grid has 72 points from 0 to 35. \<open>spec_lin_interp xs ys x y\<close> says that \<open>y\<close> is the
  value at \<open>x\<close> of the linear interpolant through \<open>(xs, ys)\<close>, flat outside the sample
  points. The "same" convolution is the middle part of the linear convolution
  \<open>\<Sum>j. a\<^sub>j b\<^bsub>k-j\<^esub>\<close>.
\<close>

definition spec_grid :: "nat \<Rightarrow> real" where
  "spec_grid i = - 50 + real i / 10"

definition spec_out_grid :: "nat \<Rightarrow> real" where
  "spec_out_grid k = 35 * real k / 71"

definition spec_lin_interp :: "real list \<Rightarrow> real list \<Rightarrow> real \<Rightarrow> real \<Rightarrow> bool" where
  "spec_lin_interp xs ys x y \<longleftrightarrow>
     (x \<le> hd xs \<longrightarrow> y = hd ys) \<and>
     (last xs \<le> x \<longrightarrow> y = last ys) \<and>
     (\<forall>j. Suc j < length xs \<and> xs ! j \<le> x \<and> x \<le> xs ! Suc j \<longrightarrow>
          y = ys ! j + (ys ! Suc j - ys ! j) * (x - xs ! j) / (xs ! Suc j - xs ! j))"

definition spec_kernel :: "real \<Rightarrow> real \<Rightarrow> real \<Rightarrow> real" where
  "spec_kernel sigma delta_v v =
     (1 / sqrt (2 * pi * sigma\<^sup>2)) * exp (- (v - delta_v)\<^sup>2 / (2 * sigma\<^sup>2))"

definition spec_full_convolution :: "real list \<Rightarrow> real list \<Rightarrow> nat \<Rightarrow> real" where
  "spec_full_convolution a b k =
     (\<Sum>j \<in> {j. j < length a \<and> j \<le> k \<and> k - j < length b}. a ! j * b ! (k - j))"

definition spec_same_convolution :: "real list \<Rightarrow> real list \<Rightarrow> nat \<Rightarrow> real" where
  "spec_same_convolution a b i = spec_full_convolution a b (i + (length b - 1) div 2)"

section \<open>Auxiliary facts\<close>

subsection \<open>Maximum, defaults and the shape of a call\<close>

lemma foldl_max_Max: "foldl max x xs = Max (set (x # xs))"
proof (induction xs arbitrary: x)
  case Nil
  show ?case by simp
next
  case (Cons y ys)
  have "foldl max x (y # ys) = Max (set (max x y # ys))"
    using Cons.IH [of "max x y"] by simp
  also have "\<dots> = Max (set (x # y # ys))"
    by (cases ys) (simp_all add: max.assoc)
  finally show ?case .
qed

lemma np_max_Arr: "xs \<noteq> [] \<Longrightarrow> np_max (Arr xs) = Inr (Num (Max (set xs)))"
  by (cases xs) (simp_all add: np_max_def foldl_max_Max del: set_simps)

lemma fill_defaults_apply:
  "fill_defaults d k =
     (case d k of Some v \<Rightarrow> Some v
      | None \<Rightarrow> if k = ''eta'' then Some (Num (95 / 100))
                else if k = ''Delta_v'' then Some (Num (127 / 100))
                else if k = ''sigma'' then Some (Num (229 / 100)) else None)"
  by (simp add: fill_defaults_def setdefault_def split: option.splits)

lemma setdefault_chain:
  "(case setdefault d ''eta'' (Num (95 / 100)) of (eta, d1) \<Rightarrow>
      case setdefault d1 ''Delta_v'' (Num (127 / 100)) of (Delta_v, d2) \<Rightarrow>
      case setdefault d2 ''sigma'' (Num (229 / 100)) of (sigma, d3) \<Rightarrow> F eta Delta_v sigma d3)
   = F (the (fill_defaults d ''eta'')) (the (fill_defaults d ''Delta_v''))
       (the (fill_defaults d ''sigma'')) (fill_defaults d)"
  by (simp add: fill_defaults_def setdefault_def split: option.splits prod.splits)

lemma smooth_Inr:
  assumes "vs \<noteq> []" and "length ps = length vs"
  shows "smooth (Num et) (Num dv) (Num sg) (Arr vs) (Arr ps)
           = Inr (velocities_new, power_new et dv sg vs ps)"
proof -
  have "np_interp velocities_reg (Arr vs) (Arr ps) = Inr (power_reg vs ps)"
    using assms by (simp add: np_interp_def power_reg_def)
  then show ?thesis
    unfolding smooth_def Let_def power_new_def convolution_def kernel_reg_def
      velocities_reg_def [symmetric] velocities_new_def [symmetric]
    by (simp only: sum.case prod.case pyval.case)
qed

lemma windturbine_smooth_unfold:
  "windturbine_smooth s turbine params =
     (let s1 = after_params s params; pd = params_dict s params
      in case heap s1 turbine of
           None \<Rightarrow> (s1, Inl AttributeError)
         | Some t0 \<Rightarrow>
            (case getitem t0 ''V'' of Inl err \<Rightarrow> (s1, Inl err) | Inr V \<Rightarrow>
            (case getitem t0 ''POW'' of Inl err \<Rightarrow> (s1, Inl err) | Inr POW \<Rightarrow>
            (case smooth (the (pd ''eta'')) (the (pd ''Delta_v'')) (the (pd ''sigma'')) V POW of
               Inl err \<Rightarrow> (s1, Inl err) | Inr (V_new, POW_new) \<Rightarrow>
            (case np_max (Arr POW_new) of Inl err \<Rightarrow> (s1, Inl err) | Inr P \<Rightarrow>
               (let t1 = t0(''V'' \<mapsto> Arr V_new, ''POW'' \<mapsto> Arr POW_new, ''P'' \<mapsto> P);
                    s2 = (if oversmoothed V_new POW_new
                          then logger_warn s1 oversmoothing_msg else s1)
                in (s2, Inr t1)))))))"
  unfolding windturbine_smooth_def Let_def after_params_def params_dict_def
  by (simp only: setdefault_chain)


subsection \<open>The two grids\<close>

lemma np_linspace_eq:
  assumes "1 < num"
  shows "np_linspace a b num = map (\<lambda>i. a + real i * ((b - a) / real (num - 1))) [0..<num]"
proof (rule nth_equalityI)
  show "length (np_linspace a b num)
          = length (map (\<lambda>i. a + real i * ((b - a) / real (num - 1))) [0..<num])"
    using assms by (simp add: np_linspace_def Let_def)
next
  fix i assume "i < length (np_linspace a b num)"
  then have i: "i < num" using assms by (simp add: np_linspace_def Let_def)
  have n: "real (num - 1) \<noteq> 0" using assms by simp
  show "np_linspace a b num ! i
          = map (\<lambda>i. a + real i * ((b - a) / real (num - 1))) [0..<num] ! i"
  proof (cases "i = num - 1")
    case True
    then show ?thesis using assms i n by (simp add: np_linspace_def Let_def)
  next
    case False
    then show ?thesis using assms i by (simp add: np_linspace_def Let_def)
  qed
qed

lemma velocities_reg_eq: "velocities_reg = map (\<lambda>i. - 50 + real i / 10) [0..<1001]"
  by (simp add: velocities_reg_def np_linspace_eq)

lemma velocities_new_eq: "velocities_new = map (\<lambda>i. 35 * real i / 71) [0..<72]"
  by (simp add: velocities_new_def np_linspace_eq)

lemma length_velocities_reg: "length velocities_reg = 1001"
  by (simp add: velocities_reg_eq)

lemma length_velocities_new: "length velocities_new = 72"
  by (simp add: velocities_new_eq)

lemma length_power_new: "length (power_new et dv sg vs ps) = 72"
  by (simp add: power_new_def length_velocities_new)

lemma power_new_nonempty: "power_new et dv sg vs ps \<noteq> []"
  using length_power_new [of et dv sg vs ps] by auto

lemma oversmoothed_iff:
  assumes "length pn = 72"
  shows "oversmoothed velocities_new pn \<longleftrightarrow> 1 / 100 < hd pn"
proof -
  have "oversmoothed velocities_new pn
          \<longleftrightarrow> (\<exists>i<72. velocities_new ! i = 0 \<and> 1 / 100 < pn ! i)"
    using assms
    by (auto simp: oversmoothed_def list_ex_iff set_zip length_velocities_new)
  also have "\<dots> \<longleftrightarrow> 1 / 100 < pn ! 0"
  proof
    assume "\<exists>i<72. velocities_new ! i = 0 \<and> 1 / 100 < pn ! i"
    then obtain i where i: "i < 72" "velocities_new ! i = 0" "1 / 100 < pn ! i" by blast
    from i(1,2) have "i = 0" by (simp add: velocities_new_eq)
    with i(3) show "1 / 100 < pn ! 0" by simp
  next
    assume "1 / 100 < pn ! 0"
    moreover have "velocities_new ! 0 = 0" by (simp add: velocities_new_eq)
    ultimately have "(0::nat) < 72 \<and> velocities_new ! 0 = 0 \<and> 1 / 100 < pn ! 0" by simp
    then show "\<exists>i<72. velocities_new ! i = 0 \<and> 1 / 100 < pn ! i" by blast
  qed
  also have "pn ! 0 = hd pn" using assms by (cases pn) simp_all
  finally show ?thesis .
qed

subsection \<open>The state after the parameters are read\<close>

lemma heap_after_params:
  "heap (after_params s params) a =
     (case heap s a of None \<Rightarrow> None
      | Some d \<Rightarrow> Some (if params = Ref a then fill_defaults d else d))"
  by (cases params)
     (auto simp: after_params_def params_dict_def locate_params_def read_params_def
        write_params_def split: option.splits)

lemma default_after_params:
  "default_params (after_params s params) =
     (if params = Omitted then fill_defaults (default_params s) else default_params s)"
  by (cases params)
     (auto simp: after_params_def params_dict_def locate_params_def read_params_def
        write_params_def split: option.splits)

lemma logged_after_params: "logged (after_params s params) = logged s"
  by (cases params)
     (auto simp: after_params_def locate_params_def write_params_def split: option.splits)

lemma params_dict_eq:
  "params_dict s params =
     fill_defaults (case params of Omitted \<Rightarrow> default_params s
                    | Ref a \<Rightarrow> (case heap s a of None \<Rightarrow> Map.empty | Some d \<Rightarrow> d))"
  by (cases params)
     (auto simp: params_dict_def locate_params_def read_params_def split: option.splits)

lemma fill_defaults_idem: "fill_defaults (fill_defaults d) = fill_defaults d"
  by (rule ext) (simp add: fill_defaults_apply split: option.splits)

lemma windturbine_smooth_result:
  assumes t: "heap s turbine = Some t"
    and V: "t ''V'' = Some (Arr vs)" and POW: "t ''POW'' = Some (Arr ps)"
    and ne: "vs \<noteq> []" and len: "length ps = length vs"
    and eta: "params_dict s params ''eta'' = Some (Num et)"
    and dv: "params_dict s params ''Delta_v'' = Some (Num dv)"
    and sg: "params_dict s params ''sigma'' = Some (Num sg)"
  shows "windturbine_smooth s turbine params =
     (if 1 / 100 < hd (power_new et dv sg vs ps)
      then logger_warn (after_params s params) oversmoothing_msg else after_params s params,
      Inr ((if params = Ref turbine then fill_defaults t else t)
             (''V'' \<mapsto> Arr velocities_new,
              ''POW'' \<mapsto> Arr (power_new et dv sg vs ps),
              ''P'' \<mapsto> Num (Max (set (power_new et dv sg vs ps))))))"
proof -
  let ?t0 = "if params = Ref turbine then fill_defaults t else t"
  have h: "heap (after_params s params) turbine = Some ?t0"
    using t by (simp add: heap_after_params)
  have V0: "getitem ?t0 ''V'' = Inr (Arr vs)" and P0: "getitem ?t0 ''POW'' = Inr (Arr ps)"
    using V POW by (simp_all add: getitem_def fill_defaults_apply)
  have sm: "smooth (the (params_dict s params ''eta'')) (the (params_dict s params ''Delta_v''))
              (the (params_dict s params ''sigma'')) (Arr vs) (Arr ps)
            = Inr (velocities_new, power_new et dv sg vs ps)"
    using eta dv sg smooth_Inr [OF ne len] by simp
  have mx: "np_max (Arr (power_new et dv sg vs ps))
              = Inr (Num (Max (set (power_new et dv sg vs ps))))"
    by (rule np_max_Arr) (rule power_new_nonempty)
  show ?thesis
    unfolding windturbine_smooth_unfold Let_def
    by (simp only: h V0 P0 sm mx option.case sum.case prod.case
        oversmoothed_iff [OF length_power_new])
qed

lemma fill_defaults_map_add: "fill_defaults d = default_value ++ d"
  by (rule ext) (simp add: fill_defaults_apply default_value_def map_add_def split: option.splits)

lemma fill_defaults_other:
  "k \<noteq> ''eta'' \<Longrightarrow> k \<noteq> ''Delta_v'' \<Longrightarrow> k \<noteq> ''sigma'' \<Longrightarrow> fill_defaults d k = d k"
  by (simp add: fill_defaults_apply split: option.splits)

lemma windturbine_smooth_fst:
  "fst (windturbine_smooth s turbine params) = after_params s params \<or>
   fst (windturbine_smooth s turbine params) = logger_warn (after_params s params) oversmoothing_msg"
  unfolding windturbine_smooth_unfold Let_def
  by (simp split: option.splits sum.splits prod.splits)

lemma heap_windturbine_smooth:
  "heap (fst (windturbine_smooth s turbine params)) = heap (after_params s params)"
  using windturbine_smooth_fst [of s turbine params] by (auto simp: logger_warn_def)

lemma default_windturbine_smooth:
  "default_params (fst (windturbine_smooth s turbine params)) = default_params (after_params s params)"
  using windturbine_smooth_fst [of s turbine params] by (auto simp: logger_warn_def)

lemma windturbine_smooth_Inr:
  assumes "snd (windturbine_smooth s turbine params) = Inr t'"
  shows "\<exists>t0 a b c. heap (after_params s params) turbine = Some t0 \<and>
           t' = t0(''V'' \<mapsto> a, ''POW'' \<mapsto> b, ''P'' \<mapsto> c)"
  using assms unfolding windturbine_smooth_unfold Let_def
  by (auto split: option.splits sum.splits prod.splits)

lemma params_dict_after:
  "params_dict (fst (windturbine_smooth s turbine params)) params = params_dict s params"
proof -
  have "params_dict (fst (windturbine_smooth s turbine params)) params
          = params_dict (after_params s params) params"
    by (cases params)
       (simp_all add: params_dict_eq heap_windturbine_smooth default_windturbine_smooth)
  also have "\<dots> = params_dict s params"
    by (cases params)
       (simp_all add: params_dict_eq heap_after_params default_after_params fill_defaults_idem
          split: option.splits)
  finally show ?thesis .
qed

lemma outcome_windturbine_smooth:
  assumes "heap s turbine = Some d"
  shows "outcome (snd (windturbine_smooth s turbine params)) =
     (case getitem d ''V'' of Inl err \<Rightarrow> Inl err | Inr V \<Rightarrow>
     (case getitem d ''POW'' of Inl err \<Rightarrow> Inl err | Inr POW \<Rightarrow>
     (case smooth (the (params_dict s params ''eta'')) (the (params_dict s params ''Delta_v''))
             (the (params_dict s params ''sigma'')) V POW of
        Inl err \<Rightarrow> Inl err | Inr (V_new, POW_new) \<Rightarrow>
     (case np_max (Arr POW_new) of Inl err \<Rightarrow> Inl err | Inr P \<Rightarrow>
        Inr (Some (Arr V_new), Some (Arr POW_new), Some P)))))"
proof -
  let ?t0 = "if params = Ref turbine then fill_defaults d else d"
  have h: "heap (after_params s params) turbine = Some ?t0"
    using assms by (simp add: heap_after_params)
  have V: "getitem ?t0 ''V'' = getitem d ''V''" and P: "getitem ?t0 ''POW'' = getitem d ''POW''"
    by (simp_all add: getitem_def fill_defaults_other)
  show ?thesis
    unfolding windturbine_smooth_unfold Let_def h option.case V P
    by (simp add: outcome_def split: sum.splits prod.splits)
qed

lemma outcome_depends:
  assumes "heap s1 t1 = Some d1" and "heap s2 t2 = Some d2"
    and "d1 ''V'' = d2 ''V''" and "d1 ''POW'' = d2 ''POW''"
    and "params_dict s1 p1 ''eta'' = params_dict s2 p2 ''eta''"
    and "params_dict s1 p1 ''Delta_v'' = params_dict s2 p2 ''Delta_v''"
    and "params_dict s1 p1 ''sigma'' = params_dict s2 p2 ''sigma''"
  shows "outcome (snd (windturbine_smooth s1 t1 p1)) = outcome (snd (windturbine_smooth s2 t2 p2))"
proof -
  have g: "getitem d1 ''V'' = getitem d2 ''V''" "getitem d1 ''POW'' = getitem d2 ''POW''"
    using assms(3,4) by (simp_all add: getitem_def)
  show ?thesis
    unfolding outcome_windturbine_smooth [OF assms(1)] outcome_windturbine_smooth [OF assms(2)]
      g assms(5,6,7) ..
qed


lemma example_params:
  "params_dict example_state Omitted ''eta'' = Some (Num (95 / 100))"
  "params_dict example_state Omitted ''Delta_v'' = Some (Num (127 / 100))"
  "params_dict example_state Omitted ''sigma'' = Some (Num (229 / 100))"
  by (simp_all add: params_dict_eq fill_defaults_apply example_state_def)

lemma example_turbine:
  "heap example_state 0 = Some demo_turbine"
  "demo_turbine ''V'' = Some (Arr [0, 5, 10, 15, 20, 25])"
  "demo_turbine ''POW'' = Some (Arr [0, 0, 100, 400, 800, 800])"
  by (simp_all add: example_state_def demo_turbine_def)

lemma intact_params:
  assumes "defaults_intact s" and "k = ''eta'' \<or> k = ''Delta_v'' \<or> k = ''sigma''"
  shows "params_dict s Omitted k = default_value k"
proof (cases "default_params s k")
  case None
  then show ?thesis using assms(2)
    by (auto simp: params_dict_eq fill_defaults_apply default_value_def)
next
  case (Some v)
  with assms(1) have "default_value k = Some v" by (simp add: defaults_intact_def)
  with Some show ?thesis by (simp add: params_dict_eq fill_defaults_apply)
qed

lemma intact_preserved:
  assumes "defaults_intact s"
  shows "defaults_intact (fst (windturbine_smooth s turbine params))"
  unfolding defaults_intact_def
proof (intro allI impI)
  fix k v
  assume a: "default_params (fst (windturbine_smooth s turbine params)) k = Some v"
  show "default_value k = Some v"
  proof (cases "default_params s k")
    case (Some w)
    with a have "w = v"
      by (simp add: default_windturbine_smooth default_after_params fill_defaults_apply
          split: if_splits)
    with Some assms show ?thesis by (simp add: defaults_intact_def)
  next
    case None
    with a have "(default_value ++ default_params s) k = Some v"
      by (simp add: default_windturbine_smooth default_after_params fill_defaults_map_add
          split: if_splits)
    with None show ?thesis by (simp add: map_add_def)
  qed
qed

lemma hd_velocities_new: "hd velocities_new = 0"
proof -
  have "velocities_new ! 0 = 0" by (simp add: velocities_new_eq)
  moreover have "velocities_new \<noteq> []" using length_velocities_new by auto
  ultimately show ?thesis by (simp add: hd_conv_nth)
qed

subsection \<open>Length and entries of the convolution\<close>

lemma length_convolve_full:
  "a \<noteq> [] \<Longrightarrow> b \<noteq> [] \<Longrightarrow> length (convolve_full a b) = length a + length b - 1"
  by (simp add: convolve_full_def)

lemma length_fftconvolve_same:
  assumes "b \<noteq> []"
  shows "length (fftconvolve_same a b) = length a"
proof (cases "a = []")
  case True
  then show ?thesis by (simp add: fftconvolve_same_def centered_def convolve_full_def)
next
  case False
  have "0 < length b" using assms by simp
  moreover have "(length b - 1) div 2 \<le> length b - 1" by simp
  ultimately have "length a \<le> length a + length b - 1 - (length b - 1) div 2" by linarith
  then show ?thesis using False assms
    by (simp add: fftconvolve_same_def centered_def length_convolve_full)
qed

lemma nth_fftconvolve_same:
  assumes "b \<noteq> []" and "i < length a"
  shows "fftconvolve_same a b ! i =
     sum_list (map (\<lambda>j. if j \<le> i + (length b - 1) div 2 \<and> i + (length b - 1) div 2 - j < length b
                         then a ! j * b ! (i + (length b - 1) div 2 - j) else 0)
                   [0..<length a])"
proof -
  have a: "a \<noteq> []" using assms(2) by auto
  have lb: "0 < length b" using assms(1) by simp
  have off: "(length (convolve_full a b) - length a) div 2 = (length b - 1) div 2"
    using a assms(1) lb by (simp add: length_convolve_full)
  have bound: "(length b - 1) div 2 + i < length a + length b - 1"
    using assms(2) lb by linarith
  have "fftconvolve_same a b ! i = convolve_full a b ! ((length b - 1) div 2 + i)"
    using assms(2) bound a assms(1)
    by (simp add: fftconvolve_same_def centered_def off length_convolve_full)
  also have "\<dots> = sum_list (map (\<lambda>j. if j \<le> i + (length b - 1) div 2 \<and> i + (length b - 1) div 2 - j < length b
                         then a ! j * b ! (i + (length b - 1) div 2 - j) else 0)
                   [0..<length a])"
    using bound a assms(1) by (simp add: convolve_full_def add.commute cong: if_cong)
  finally show ?thesis .
qed

subsection \<open>The library functions against the definitions of the specification\<close>

lemma kernel_eq_spec: "kernel sg dv v = spec_kernel sg dv v"
proof -
  have a: "2 * pi * sg * sg = 2 * pi * sg\<^sup>2" by (simp add: power2_eq_square)
  have b: "- (v - dv) * (v - dv) / (2 * sg * sg) = - (v - dv)\<^sup>2 / (2 * sg\<^sup>2)"
  proof -
    have "- (v - dv) * (v - dv) = - ((v - dv) * (v - dv))" by (rule mult_minus_left)
    moreover have "2 * sg * sg = 2 * (sg * sg)" by (rule mult.assoc)
    ultimately show ?thesis by (simp only: power2_eq_square)
  qed
  show ?thesis unfolding kernel_def spec_kernel_def a b ..
qed

lemma fftconvolve_same_spec:
  assumes "b \<noteq> []" and "i < length a"
  shows "fftconvolve_same a b ! i = spec_same_convolution a b i"
proof -
  let ?k = "i + (length b - 1) div 2"
  have "sum_list (map (\<lambda>j. if j \<le> ?k \<and> ?k - j < length b then a ! j * b ! (?k - j) else 0)
                   [0..<length a])
        = (\<Sum>j \<in> {0..<length a}. if j \<le> ?k \<and> ?k - j < length b then a ! j * b ! (?k - j) else 0)"
    by (simp add: interv_sum_list_conv_sum_set_nat)
  also have "\<dots> = (\<Sum>j \<in> {j \<in> {0..<length a}. j \<le> ?k \<and> ?k - j < length b}. a ! j * b ! (?k - j))"
    by (rule sum.inter_filter [symmetric]) simp
  also have "{j \<in> {0..<length a}. j \<le> ?k \<and> ?k - j < length b}
               = {j. j < length a \<and> j \<le> ?k \<and> ?k - j < length b}"
    by auto
  finally show ?thesis
    by (simp add: nth_fftconvolve_same [OF assms] spec_same_convolution_def
        spec_full_convolution_def)
qed

lemma interp_seg_first:
  assumes "ps \<noteq> []" and "sorted_wrt (<) (map fst ps)"
  shows "interp_seg (fst (hd ps)) ps = snd (hd ps)"
proof (cases ps)
  case Nil
  with assms(1) show ?thesis by simp
next
  case (Cons p qs)
  show ?thesis
  proof (cases qs)
    case Nil
    with Cons show ?thesis by (cases p) simp
  next
    case (Cons q rs)
    with \<open>ps = p # qs\<close> assms(2) show ?thesis by (cases p; cases q) simp
  qed
qed

lemma interp_seg_segment:
  assumes "sorted_wrt (<) (map fst ps)" and "Suc j < length ps"
    and "fst (ps ! j) \<le> x" and "x \<le> fst (ps ! Suc j)"
  shows "interp_seg x ps =
           snd (ps ! j) + (snd (ps ! Suc j) - snd (ps ! j)) * (x - fst (ps ! j))
                            / (fst (ps ! Suc j) - fst (ps ! j))"
  using assms
proof (induction x ps arbitrary: j rule: interp_seg.induct)
  case (1 x)
  then show ?case by simp
next
  case (2 x x0 y0)
  then show ?case by simp
next
  case (3 x x0 y0 x1 y1 ps)
  have lt01: "x0 < x1" using 3(2) by simp
  have srt: "sorted_wrt (<) (map fst ((x1, y1) # ps))" using 3(2) by simp
  show ?case
  proof (cases j)
    case 0
    show ?thesis
    proof (cases "x < x1")
      case True
      then show ?thesis using 0 by (simp add: field_simps)
    next
      case False
      with 3(5) 0 have x: "x = x1" by simp
      have "interp_seg x1 ((x1, y1) # ps) = y1"
        using interp_seg_first [OF _ srt] by simp
      then show ?thesis using x 0 lt01 by simp
    qed
  next
    case (Suc j')
    have "x1 \<le> fst (((x1, y1) # ps) ! j')"
    proof (cases j')
      case 0
      then show ?thesis by simp
    next
      case (Suc m)
      have m: "m < length ps" using 3(3) \<open>j = Suc j'\<close> Suc by simp
      then have "ps ! m \<in> set ps" by simp
      with srt have "x1 < fst (ps ! m)" by auto
      then show ?thesis using Suc by simp
    qed
    with 3(4) Suc have ge: "\<not> x < x1" by simp
    have "interp_seg x ((x1, y1) # ps) =
            snd (((x1, y1) # ps) ! j') + (snd (((x1, y1) # ps) ! Suc j') - snd (((x1, y1) # ps) ! j'))
              * (x - fst (((x1, y1) # ps) ! j'))
              / (fst (((x1, y1) # ps) ! Suc j') - fst (((x1, y1) # ps) ! j'))"
      using 3(1) [OF ge srt, of j'] 3(3,4,5) Suc by simp
    then show ?thesis using ge Suc by simp
  qed
qed


lemma strict_sorted_nth_le:
  fixes xs :: "real list"
  assumes "sorted_wrt (<) xs" and "i \<le> j" and "j < length xs"
  shows "xs ! i \<le> xs ! j"
proof (cases "i = j")
  case True
  then show ?thesis by simp
next
  case False
  with assms(2) have "i < j" by simp
  with assms(1,3) have "xs ! i < xs ! j" by (simp add: sorted_wrt_iff_nth_less)
  then show ?thesis by simp
qed

lemma interp1_spec:
  assumes ne: "xs \<noteq> []" and len: "length ys = length xs" and srt: "sorted_wrt (<) xs"
  shows "spec_lin_interp xs ys x (interp1 xs ys x)"
proof -
  let ?ps = "zip xs ys"
  have n: "0 < length xs" using ne by simp
  have yne: "ys \<noteq> []" using ne len by auto
  have fsts: "map fst ?ps = xs" using len by simp
  have psne: "?ps \<noteq> []" using ne yne by (cases xs; cases ys) simp_all
  have hdps: "hd ?ps = (hd xs, hd ys)" using ne yne by (cases xs; cases ys) simp_all
  have nthps: "\<And>j. j < length xs \<Longrightarrow> ?ps ! j = (xs ! j, ys ! j)" using len by simp
  have srtps: "sorted_wrt (<) (map fst ?ps)" using srt fsts by simp
  have hd_le: "\<And>j. j < length xs \<Longrightarrow> hd xs \<le> xs ! j"
    using strict_sorted_nth_le [OF srt, of 0] ne by (simp add: hd_conv_nth)
  have le_last: "\<And>j. j < length xs \<Longrightarrow> xs ! j \<le> last xs"
    using strict_sorted_nth_le [OF srt, of _ "length xs - 1"] ne n
    by (simp add: last_conv_nth)
  have hd_last: "hd xs \<le> last xs"
    using hd_le [of "length xs - 1"] ne n by (simp add: last_conv_nth)
  have seg: "\<And>j. Suc j < length xs \<Longrightarrow> xs ! j \<le> x \<Longrightarrow> x \<le> xs ! Suc j \<Longrightarrow>
      interp_seg x ?ps = ys ! j + (ys ! Suc j - ys ! j) * (x - xs ! j) / (xs ! Suc j - xs ! j)"
  proof -
    fix j assume j: "Suc j < length xs" and lo: "xs ! j \<le> x" and hi: "x \<le> xs ! Suc j"
    have j0: "j < length xs" using j by simp
    show "interp_seg x ?ps = ys ! j + (ys ! Suc j - ys ! j) * (x - xs ! j) / (xs ! Suc j - xs ! j)"
      using interp_seg_segment [OF srtps, of j x] j lo hi len
      by (simp add: nthps [OF j] nthps [OF j0])
  qed
  have A: "x \<le> hd xs \<Longrightarrow> interp1 xs ys x = hd ys"
  proof -
    assume a: "x \<le> hd xs"
    then have nr: "\<not> last xs < x" using hd_last by simp
    show "interp1 xs ys x = hd ys"
    proof (cases "x < hd xs")
      case True
      with nr show ?thesis by (simp add: interp1_def)
    next
      case False
      with a have x: "x = hd xs" by simp
      have "interp_seg (fst (hd ?ps)) ?ps = snd (hd ?ps)"
        by (rule interp_seg_first [OF psne srtps])
      then have "interp_seg (hd xs) ?ps = hd ys" by (simp add: hdps)
      with nr x show ?thesis by (simp add: interp1_def)
    qed
  qed
  have B: "last xs \<le> x \<Longrightarrow> interp1 xs ys x = last ys"
  proof -
    assume b: "last xs \<le> x"
    show "interp1 xs ys x = last ys"
    proof (cases "last xs < x")
      case True
      then show ?thesis by (simp add: interp1_def)
    next
      case False
      with b have x: "x = last xs" by simp
      have nl: "\<not> x < hd xs" using x hd_last by simp
      have iseg: "interp1 xs ys x = interp_seg x ?ps" using False nl by (simp add: interp1_def)
      show ?thesis
      proof (cases "length xs = 1")
        case True
        then obtain x0 where xs: "xs = [x0]" by (cases xs) simp_all
        with len obtain y0 where ys: "ys = [y0]" by (cases ys) simp_all
        show ?thesis using iseg xs ys by simp
      next
        case False
        with n have l2: "Suc (length xs - 2) < length xs" by linarith
        have e: "Suc (length xs - 2) = length xs - 1" using l2 by simp
        have xl: "x = xs ! Suc (length xs - 2)" using x ne e by (simp add: last_conv_nth)
        have lt: "xs ! (length xs - 2) < xs ! Suc (length xs - 2)"
          using srt l2 by (simp add: sorted_wrt_iff_nth_less)
        have "interp_seg x ?ps = ys ! (length xs - 2)
                + (ys ! Suc (length xs - 2) - ys ! (length xs - 2)) * (x - xs ! (length xs - 2))
                  / (xs ! Suc (length xs - 2) - xs ! (length xs - 2))"
          using seg [OF l2] lt xl by simp
        also have "\<dots> = ys ! Suc (length xs - 2)"
          using lt unfolding xl by simp
        also have "\<dots> = last ys" using yne len e by (simp add: last_conv_nth)
        finally show ?thesis using iseg by simp
      qed
    qed
  qed
  have C: "\<And>j. Suc j < length xs \<and> xs ! j \<le> x \<and> x \<le> xs ! Suc j \<Longrightarrow>
      interp1 xs ys x = ys ! j + (ys ! Suc j - ys ! j) * (x - xs ! j) / (xs ! Suc j - xs ! j)"
  proof -
    fix j assume c: "Suc j < length xs \<and> xs ! j \<le> x \<and> x \<le> xs ! Suc j"
    then have j0: "j < length xs" by simp
    have "\<not> last xs < x" using c le_last [of "Suc j"] by simp
    moreover have "\<not> x < hd xs" using c hd_le [OF j0] by simp
    ultimately have "interp1 xs ys x = interp_seg x ?ps" by (simp add: interp1_def)
    then show "interp1 xs ys x = ys ! j + (ys ! Suc j - ys ! j) * (x - xs ! j) / (xs ! Suc j - xs ! j)"
      using seg [of j] c by simp
  qed
  show ?thesis
    unfolding spec_lin_interp_def using A B C by blast
qed

lemma velocities_reg_spec: "velocities_reg = map spec_grid [0..<1001]"
  by (simp add: velocities_reg_eq spec_grid_def)

lemma velocities_new_spec: "velocities_new = map spec_out_grid [0..<72]"
  by (simp add: velocities_new_eq spec_out_grid_def)

lemma velocities_reg_strict: "sorted_wrt (<) velocities_reg"
  by (simp add: velocities_reg_eq sorted_wrt_iff_nth_less)


lemma length_kernel_reg: "length (kernel_reg sg dv) = 1001"
  by (simp add: kernel_reg_def length_velocities_reg)

lemma length_power_reg: "length (power_reg vs ps) = 1001"
  by (simp add: power_reg_def length_velocities_reg)

lemma length_convolution: "length (convolution sg dv vs ps) = 1001"
proof -
  have "kernel_reg sg dv \<noteq> []" using length_kernel_reg [of sg dv] by auto
  then show ?thesis
    by (simp add: convolution_def length_fftconvolve_same length_power_reg)
qed

lemma nth_velocities_reg: "i < 1001 \<Longrightarrow> velocities_reg ! i = spec_grid i"
  by (simp add: velocities_reg_spec del: upt_Suc)

lemma nth_velocities_new: "k < 72 \<Longrightarrow> velocities_new ! k = spec_out_grid k"
  by (simp add: velocities_new_spec del: upt_Suc)

subsection \<open>What a returned configuration holds\<close>

lemma np_max_Inr:
  assumes "np_max (Arr xs) = Inr P"
  shows "xs \<noteq> [] \<and> P = Num (Max (set xs))"
proof -
  have ne: "xs \<noteq> []" using assms by (auto simp: np_max_def)
  with assms show ?thesis by (simp add: np_max_Arr)
qed

lemma windturbine_smooth_Inr_max:
  assumes "snd (windturbine_smooth s turbine params) = Inr t'"
  shows "\<exists>pn. pn \<noteq> [] \<and> t' ''POW'' = Some (Arr pn) \<and> t' ''P'' = Some (Num (Max (set pn)))"
proof -
  from assms obtain t0 vn pn P where
    mx: "np_max (Arr pn) = Inr P"
    and t': "t' = t0(''V'' \<mapsto> Arr vn, ''POW'' \<mapsto> Arr pn, ''P'' \<mapsto> P)"
    unfolding windturbine_smooth_unfold Let_def
    by (auto split: option.splits sum.splits prod.splits)
  from np_max_Inr [OF mx] t' show ?thesis by simp
qed

section \<open>Rated capacity of a solar panel\<close>

text \<open>
  C9. For a panel dictionary with model tag \<^verbatim>\<open>bofinger\<close> and numeric coefficients \<open>A\<close>,
  \<open>B\<close>, \<open>C\<close> the rated capacity per unit is \<open>(A + 1000 B + ln 1000 C) 1000\<close>.
\<close>

theorem bofinger_rated_capacity:
  assumes "p ''model'' = Some (Str ''bofinger'')"
    and "p ''A'' = Some (Num a)" and "p ''B'' = Some (Num b)" and "p ''C'' = Some (Num c)"
  shows "solarpanel_rated_capacity_per_unit e (Config p)
           = Inr (Some (Num ((a + 1000 * b + ln 1000 * c) * 1000)))"
  using assms
  by (simp add: solarpanel_rated_capacity_per_unit_def getitem_def bofinger_capacity_def
      mult.commute)

text \<open>At \<open>A = 0\<close>, \<open>B = 0.0005\<close>, \<open>C = 0.0001\<close> this is \<open>500 + 0.1 ln 1000\<close>.\<close>

theorem bofinger_rated_capacity_witness:
  "solarpanel_rated_capacity_per_unit example_env
     (Config [''model'' \<mapsto> Str ''bofinger'', ''A'' \<mapsto> Num 0, ''B'' \<mapsto> Num (5 / 10000),
              ''C'' \<mapsto> Num (1 / 10000)])
   = Inr (Some (Num (500 + (1 / 10) * ln 1000)))"
  using bofinger_rated_capacity [of "[''model'' \<mapsto> Str ''bofinger'', ''A'' \<mapsto> Num 0,
      ''B'' \<mapsto> Num (5 / 10000), ''C'' \<mapsto> Num (1 / 10000)]" 0 "5 / 10000" "1 / 10000" example_env]
  by (simp add: algebra_simps)

text \<open>
  C2, as stated, fails: a panel dictionary without a model tag is not rejected, the
  function answers with its efficiency.
\<close>

theorem missing_model_returns_efficiency:
  "solarpanel_rated_capacity_per_unit example_env (Config [''efficiency'' \<mapsto> Num (1 / 10)])
     = Inr (Some (Num (1 / 10)))"
  by (simp add: solarpanel_rated_capacity_per_unit_def getitem_def)

text \<open>
  C2, amended. A panel dictionary without a model tag is handled as model \<^verbatim>\<open>huld\<close>: the
  result is its efficiency entry, or \<^verbatim>\<open>KeyError\<close> when that is absent. For a model tag
  other than \<^verbatim>\<open>huld\<close> and \<^verbatim>\<open>bofinger\<close> the function returns no capacity value.
\<close>

theorem solarpanel_model_dispatch:
  "(p ''model'' = None \<longrightarrow>
      solarpanel_rated_capacity_per_unit e (Config p)
        = solarpanel_rated_capacity_per_unit e (Config (p(''model'' \<mapsto> Str ''huld'')))
      \<and> solarpanel_rated_capacity_per_unit e (Config p)
        = (case p ''efficiency'' of None \<Rightarrow> Inl (KeyError ''efficiency'') | Some v \<Rightarrow> Inr (Some v)))
   \<and> (p ''model'' = Some m \<and> m \<noteq> Str ''huld'' \<and> m \<noteq> Str ''bofinger'' \<longrightarrow>
        (\<forall>v. solarpanel_rated_capacity_per_unit e (Config p) \<noteq> Inr (Some v)))"
  by (simp add: solarpanel_rated_capacity_per_unit_def getitem_def split: option.splits)

theorem solarpanel_model_dispatch_witness:
  "solarpanel_rated_capacity_per_unit example_env (Config [''efficiency'' \<mapsto> Num (1 / 10)])
     = solarpanel_rated_capacity_per_unit example_env
         (Config [''efficiency'' \<mapsto> Num (1 / 10), ''model'' \<mapsto> Str ''huld''])
   \<and> (\<forall>v. solarpanel_rated_capacity_per_unit example_env
              (Config [''model'' \<mapsto> Str ''unknown'', ''efficiency'' \<mapsto> Num (1 / 10)])
            \<noteq> Inr (Some v))"
  using solarpanel_model_dispatch [where p = "[''efficiency'' \<mapsto> Num (1 / 10)]" and e = example_env]
    solarpanel_model_dispatch [where p = "[''model'' \<mapsto> Str ''unknown'', ''efficiency'' \<mapsto> Num (1 / 10)]"
       and m = "Str ''unknown''" and e = example_env]
  by simp

section \<open>Rated capacity of a wind turbine\<close>

text \<open>
  C3. The rated capacity per unit of a turbine configuration is the maximum of its power
  sequence, for every configuration this module builds and every dictionary that keeps
  the rated power \<open>P\<close> equal to that maximum:
  \<^item> a turbine named by a string, whose stored configuration has entries \<open>V\<close>, \<open>POW\<close>
    (non-empty) and \<open>HUB_HEIGHT\<close>: the result is the maximum of the stored \<open>POW\<close>, and so
    it is when the configuration \<open>get_windturbineconfig\<close> built from it is passed on;
  \<^item> a configuration returned by \<open>windturbine_smooth\<close>: the result is the maximum of the
    smoothed power sequence;
  \<^item> a dictionary passed directly: the function answers with its entry \<open>P\<close>, hence with
    the maximum whenever \<open>P\<close> holds it.
\<close>

theorem rated_capacity_is_max:
  "((if prefix ''oedb:'' n then download_turbineconf e n else load_windturbine_yaml e n)
       = Inr (Some c) \<and>
    c ''V'' = Some v \<and> c ''POW'' = Some (Arr pw) \<and> pw \<noteq> [] \<and> c ''HUB_HEIGHT'' = Some h \<longrightarrow>
      windturbine_rated_capacity_per_unit e (Name n) = Inr (Num (Max (set pw))) \<and>
      (\<exists>t. get_windturbineconfig e n = Inr t \<and> t ''POW'' = Some (Arr pw) \<and>
           windturbine_rated_capacity_per_unit e (Config t) = Inr (Num (Max (set pw)))))
   \<and> (snd (windturbine_smooth s turbine params) = Inr ts \<longrightarrow>
        (\<exists>pn. pn \<noteq> [] \<and> ts ''POW'' = Some (Arr pn) \<and>
              windturbine_rated_capacity_per_unit e (Config ts) = Inr (Num (Max (set pn)))))
   \<and> (d ''POW'' = Some (Arr ps) \<and> d ''P'' = Some (Num (Max (set ps))) \<longrightarrow>
        windturbine_rated_capacity_per_unit e (Config d) = Inr (Num (Max (set ps))))"
proof (intro conjI impI)
  assume a: "(if prefix ''oedb:'' n then download_turbineconf e n else load_windturbine_yaml e n)
       = Inr (Some c) \<and>
    c ''V'' = Some v \<and> c ''POW'' = Some (Arr pw) \<and> pw \<noteq> [] \<and> c ''HUB_HEIGHT'' = Some h"
  then have mx: "np_max (Arr pw) = Inr (Num (Max (set pw)))" by (simp add: np_max_Arr)
  let ?t = "[''V'' \<mapsto> v, ''POW'' \<mapsto> Arr pw, ''hub_height'' \<mapsto> h, ''P'' \<mapsto> Num (Max (set pw))]"
  have g: "get_windturbineconfig e n = Inr ?t"
    using a mx unfolding get_windturbineconfig_def getitem_def by simp
  show "windturbine_rated_capacity_per_unit e (Name n) = Inr (Num (Max (set pw)))"
    using g by (simp add: windturbine_rated_capacity_per_unit_def getitem_def)
  have "?t ''POW'' = Some (Arr pw)" by simp
  moreover have "windturbine_rated_capacity_per_unit e (Config ?t) = Inr (Num (Max (set pw)))"
    by (simp add: windturbine_rated_capacity_per_unit_def getitem_def)
  ultimately show "\<exists>t. get_windturbineconfig e n = Inr t \<and> t ''POW'' = Some (Arr pw) \<and>
           windturbine_rated_capacity_per_unit e (Config t) = Inr (Num (Max (set pw)))"
    using g by blast
next
  assume "snd (windturbine_smooth s turbine params) = Inr ts"
  from windturbine_smooth_Inr_max [OF this]
  obtain pn where pn: "pn \<noteq> []" "ts ''POW'' = Some (Arr pn)" "ts ''P'' = Some (Num (Max (set pn)))"
    by blast
  from pn(3) have "windturbine_rated_capacity_per_unit e (Config ts) = Inr (Num (Max (set pn)))"
    by (simp add: windturbine_rated_capacity_per_unit_def getitem_def)
  with pn show "\<exists>pn. pn \<noteq> [] \<and> ts ''POW'' = Some (Arr pn) \<and>
              windturbine_rated_capacity_per_unit e (Config ts) = Inr (Num (Max (set pn)))"
    by blast
next
  assume "d ''POW'' = Some (Arr ps) \<and> d ''P'' = Some (Num (Max (set ps)))"
  then show "windturbine_rated_capacity_per_unit e (Config d) = Inr (Num (Max (set ps)))"
    by (simp add: windturbine_rated_capacity_per_unit_def getitem_def)
qed

theorem rated_capacity_is_max_witness:
  "windturbine_rated_capacity_per_unit example_env (Name ''Demo'') = Inr (Num 800) \<and>
   (\<exists>t' pn. snd (windturbine_smooth example_state 0 Omitted) = Inr t' \<and>
       pn \<noteq> [] \<and> t' ''POW'' = Some (Arr pn) \<and>
       windturbine_rated_capacity_per_unit example_env (Config t') = Inr (Num (Max (set pn)))) \<and>
   windturbine_rated_capacity_per_unit example_env (Config demo_turbine) = Inr (Num 800)"
proof -
  have ne: "[0, 5, 10, 15, 20, 25 :: real] \<noteq> []"
    and len: "length [0, 0, 100, 400, 800, 800 :: real] = length [0, 5, 10, 15, 20, 25 :: real]"
    by simp_all
  obtain t' where t': "snd (windturbine_smooth example_state 0 Omitted) = Inr t'"
    unfolding windturbine_smooth_result [OF example_turbine ne len example_params] by simp
  have mx: "Max (set [0, 0, 100, 400, 800, 800 :: real]) = 800" by simp
  have ld: "(if prefix ''oedb:'' ''Demo'' then download_turbineconf example_env ''Demo''
             else load_windturbine_yaml example_env ''Demo'')
            = Inr (Some [''V'' \<mapsto> Arr [0, 5, 10, 15, 20, 25],
                         ''POW'' \<mapsto> Arr [0, 0, 100, 400, 800, 800], ''HUB_HEIGHT'' \<mapsto> Num 80])"
    by (simp add: example_env_def)
  have dP: "demo_turbine ''P'' = Some (Num (Max (set [0, 0, 100, 400, 800, 800])))"
    by (simp add: demo_turbine_def)
  note inst = rated_capacity_is_max [where e = example_env and n = "''Demo''"
      and c = "[''V'' \<mapsto> Arr [0, 5, 10, 15, 20, 25],
                ''POW'' \<mapsto> Arr [0, 0, 100, 400, 800, 800], ''HUB_HEIGHT'' \<mapsto> Num 80]"
      and v = "Arr [0, 5, 10, 15, 20, 25]" and pw = "[0, 0, 100, 400, 800, 800]" and h = "Num 80"
      and s = example_state and turbine = 0 and params = Omitted and ts = t'
      and d = demo_turbine and ps = "[0, 0, 100, 400, 800, 800]"]
  have 1: "windturbine_rated_capacity_per_unit example_env (Name ''Demo'') = Inr (Num 800)"
    using inst ld mx by simp
  have 2: "\<exists>pn. pn \<noteq> [] \<and> t' ''POW'' = Some (Arr pn) \<and>
       windturbine_rated_capacity_per_unit example_env (Config t') = Inr (Num (Max (set pn)))"
    using inst t' by blast
  have 3: "windturbine_rated_capacity_per_unit example_env (Config demo_turbine) = Inr (Num 800)"
    using inst dP example_turbine(3) mx by simp
  from 1 2 3 t' show ?thesis by blast
qed

text \<open>
  C5, as stated, fails: a configuration dictionary with an empty power sequence is not
  rejected, the function answers with the stored entry \<open>P\<close>; and for a named turbine
  whose file holds an empty power sequence the failure is the \<^verbatim>\<open>ValueError\<close> of the
  maximum.
\<close>

theorem empty_curve_not_rejected:
  "windturbine_rated_capacity_per_unit example_env
     (Config [''V'' \<mapsto> Arr [], ''POW'' \<mapsto> Arr [], ''hub_height'' \<mapsto> Num 80, ''P'' \<mapsto> Num 0])
   = Inr (Num 0) \<and>
   windturbine_rated_capacity_per_unit example_env (Name ''Blank'')
   = Inl (ValueError ''zero-size array to reduction operation maximum which has no identity'')"
  by (simp add: windturbine_rated_capacity_per_unit_def getitem_def get_windturbineconfig_def
      example_env_def np_max_def)

text \<open>
  C5, amended. When the turbine is named by a string and the configuration found for it
  has entries \<open>V\<close>, \<open>POW\<close> and \<open>HUB_HEIGHT\<close> with an empty power sequence, the call fails
  with the \<^verbatim>\<open>ValueError\<close> of the maximum. When the configuration is passed as a dictionary
  the power sequence is not looked at: the result is the stored entry \<open>P\<close>, or
  \<^verbatim>\<open>KeyError\<close> when there is none.
\<close>

theorem empty_curve_behaviour:
  "((if prefix ''oedb:'' n then download_turbineconf e n else load_windturbine_yaml e n)
        = Inr (Some c) \<and> c ''V'' = Some v \<and> c ''POW'' = Some (Arr []) \<and> c ''HUB_HEIGHT'' = Some h
      \<longrightarrow> (\<exists>msg. windturbine_rated_capacity_per_unit e (Name n) = Inl (ValueError msg)))
   \<and> windturbine_rated_capacity_per_unit e (Config t)
        = (case t ''P'' of None \<Rightarrow> Inl (KeyError ''P'') | Some P \<Rightarrow> Inr P)"
  by (auto simp: windturbine_rated_capacity_per_unit_def get_windturbineconfig_def getitem_def
      np_max_def split: option.splits)

theorem empty_curve_behaviour_witness:
  "(\<exists>msg. windturbine_rated_capacity_per_unit example_env (Name ''Blank'') = Inl (ValueError msg))
   \<and> windturbine_rated_capacity_per_unit example_env (Config [''POW'' \<mapsto> Arr []])
        = Inl (KeyError ''P'')"
  using empty_curve_behaviour [where n = "''Blank''" and e = example_env
      and c = "[''V'' \<mapsto> Arr [], ''POW'' \<mapsto> Arr [], ''HUB_HEIGHT'' \<mapsto> Num 80]" and v = "Arr []"
      and h = "Num 80" and t = "[''POW'' \<mapsto> Arr []]"]
  by (simp add: example_env_def)

section \<open>Effects of a smoothing call\<close>

text \<open>
  C7. On a turbine dictionary with non-empty, equally long, ascending \<open>V\<close> and \<open>POW\<close>
  arrays and numeric smoothing parameters, \<open>windturbine_smooth\<close> returns a configuration
  and raises nothing. The returned velocities start at 0; when the smoothed power there
  exceeds \<open>0.01\<close> the call logs the oversmoothing warning and returns all the same,
  otherwise the log is unchanged.
\<close>

theorem windturbine_smooth_total:
  assumes "heap s turbine = Some t"
    and "t ''V'' = Some (Arr vs)" and "t ''POW'' = Some (Arr ps)"
    and "vs \<noteq> []" and "length ps = length vs" and "sorted vs"
    and "params_dict s params ''eta'' = Some (Num et)"
    and "params_dict s params ''Delta_v'' = Some (Num dv)"
    and "params_dict s params ''sigma'' = Some (Num sg)"
  shows "\<exists>s' t' vn pn. windturbine_smooth s turbine params = (s', Inr t') \<and>
           t' ''V'' = Some (Arr vn) \<and> hd vn = 0 \<and> t' ''POW'' = Some (Arr pn) \<and>
           logged s' = (if 1 / 100 < hd pn then logged s @ [oversmoothing_msg] else logged s)"
  unfolding windturbine_smooth_result [OF assms(1-5) assms(7-9)]
  by (simp add: hd_velocities_new logger_warn_def logged_after_params)

theorem windturbine_smooth_total_witness:
  "heap example_state 0 = Some demo_turbine \<and>
   demo_turbine ''V'' = Some (Arr [0, 5, 10, 15, 20, 25]) \<and>
   demo_turbine ''POW'' = Some (Arr [0, 0, 100, 400, 800, 800]) \<and>
   sorted [0, 5, 10, 15, 20, 25 :: real] \<and>
   (\<exists>s' t' vn pn. windturbine_smooth example_state 0 Omitted = (s', Inr t') \<and>
      t' ''V'' = Some (Arr vn) \<and> hd vn = 0 \<and> t' ''POW'' = Some (Arr pn) \<and>
      logged s' = (if 1 / 100 < hd pn then logged example_state @ [oversmoothing_msg]
                   else logged example_state))"
proof -
  have srt: "sorted [0, 5, 10, 15, 20, 25 :: real]" by simp
  show ?thesis
    using windturbine_smooth_total [OF example_turbine _ _ srt example_params] example_turbine srt
    by simp
qed

text \<open>
  C8. The call returns a configuration of its own and leaves the turbine dictionary it was
  given in place: every entry of that dictionary is still there, unchanged, after the
  call, and the dictionary is the same altogether unless it was also passed as \<open>params\<close>.
  The returned configuration has the \<open>hub_height\<close> of the input and agrees with the input
  on every entry other than \<open>V\<close>, \<open>POW\<close> and \<open>P\<close>.
\<close>

theorem windturbine_smooth_frame:
  assumes "heap s turbine = Some t"
  shows "(\<exists>t1. heap (fst (windturbine_smooth s turbine params)) turbine = Some t1 \<and>
            (\<forall>k v. t k = Some v \<longrightarrow> t1 k = Some v) \<and>
            (params \<noteq> Ref turbine \<longrightarrow> t1 = t)) \<and>
         (\<forall>t'. snd (windturbine_smooth s turbine params) = Inr t' \<longrightarrow>
            t' ''hub_height'' = t ''hub_height'' \<and>
            (\<forall>k v. k \<noteq> ''V'' \<and> k \<noteq> ''POW'' \<and> k \<noteq> ''P'' \<and> t k = Some v \<longrightarrow> t' k = Some v) \<and>
            (params \<noteq> Ref turbine \<longrightarrow>
               (\<forall>k. k \<noteq> ''V'' \<and> k \<noteq> ''POW'' \<and> k \<noteq> ''P'' \<longrightarrow> t' k = t k)))"
proof -
  let ?t1 = "if params = Ref turbine then fill_defaults t else t"
  have h: "heap (after_params s params) turbine = Some ?t1"
    using assms by (simp add: heap_after_params)
  have keep: "\<And>k v. t k = Some v \<Longrightarrow> ?t1 k = Some v"
    by (simp add: fill_defaults_apply)
  have hub: "?t1 ''hub_height'' = t ''hub_height''"
    by (simp add: fill_defaults_other)
  have first: "\<exists>t1. heap (fst (windturbine_smooth s turbine params)) turbine = Some t1 \<and>
            (\<forall>k v. t k = Some v \<longrightarrow> t1 k = Some v) \<and>
            (params \<noteq> Ref turbine \<longrightarrow> t1 = t)"
  proof (intro exI conjI allI impI)
    show "heap (fst (windturbine_smooth s turbine params)) turbine = Some ?t1"
      using h by (simp add: heap_windturbine_smooth)
    show "\<And>k v. t k = Some v \<Longrightarrow> ?t1 k = Some v" by (rule keep)
    show "params \<noteq> Ref turbine \<Longrightarrow> ?t1 = t" by simp
  qed
  have second: "\<forall>t'. snd (windturbine_smooth s turbine params) = Inr t' \<longrightarrow>
            t' ''hub_height'' = t ''hub_height'' \<and>
            (\<forall>k v. k \<noteq> ''V'' \<and> k \<noteq> ''POW'' \<and> k \<noteq> ''P'' \<and> t k = Some v \<longrightarrow> t' k = Some v) \<and>
            (params \<noteq> Ref turbine \<longrightarrow>
               (\<forall>k. k \<noteq> ''V'' \<and> k \<noteq> ''POW'' \<and> k \<noteq> ''P'' \<longrightarrow> t' k = t k))"
  proof (intro allI impI)
    fix t' assume "snd (windturbine_smooth s turbine params) = Inr t'"
    from windturbine_smooth_Inr [OF this] h
    obtain a b c where t': "t' = ?t1(''V'' \<mapsto> a, ''POW'' \<mapsto> b, ''P'' \<mapsto> c)" by auto
    have 1: "t' ''hub_height'' = t ''hub_height''"
      unfolding t' using hub by simp
    have 2: "\<forall>k v. k \<noteq> ''V'' \<and> k \<noteq> ''POW'' \<and> k \<noteq> ''P'' \<and> t k = Some v \<longrightarrow> t' k = Some v"
      unfolding t' using keep by simp
    have 3: "params \<noteq> Ref turbine \<longrightarrow>
               (\<forall>k. k \<noteq> ''V'' \<and> k \<noteq> ''POW'' \<and> k \<noteq> ''P'' \<longrightarrow> t' k = t k)"
      unfolding t' by simp
    from 1 2 3 show "t' ''hub_height'' = t ''hub_height'' \<and>
            (\<forall>k v. k \<noteq> ''V'' \<and> k \<noteq> ''POW'' \<and> k \<noteq> ''P'' \<and> t k = Some v \<longrightarrow> t' k = Some v) \<and>
            (params \<noteq> Ref turbine \<longrightarrow>
               (\<forall>k. k \<noteq> ''V'' \<and> k \<noteq> ''POW'' \<and> k \<noteq> ''P'' \<longrightarrow> t' k = t k))"
      by blast
  qed
  from first second show ?thesis by blast
qed

theorem windturbine_smooth_frame_witness:
  "heap example_state 0 = Some demo_turbine \<and>
   heap (fst (windturbine_smooth example_state 0 Omitted)) 0 = Some demo_turbine \<and>
   (\<exists>t'. snd (windturbine_smooth example_state 0 Omitted) = Inr t' \<and>
      t' ''hub_height'' = Some (Num 80))"
proof -
  have ne: "[0, 5, 10, 15, 20, 25 :: real] \<noteq> []"
    and len: "length [0, 0, 100, 400, 800, 800 :: real] = length [0, 5, 10, 15, 20, 25 :: real]"
    by simp_all
  have ex: "\<exists>t'. snd (windturbine_smooth example_state 0 Omitted) = Inr t'"
    unfolding windturbine_smooth_result [OF example_turbine ne len example_params] by simp
  have hub: "demo_turbine ''hub_height'' = Some (Num 80)"
    by (simp add: demo_turbine_def)
  have om: "Omitted \<noteq> Ref 0" by simp
  from windturbine_smooth_frame [OF example_turbine(1), of Omitted] om
  have a: "heap (fst (windturbine_smooth example_state 0 Omitted)) 0 = Some demo_turbine"
    and b: "\<forall>t'. snd (windturbine_smooth example_state 0 Omitted) = Inr t' \<longrightarrow>
              t' ''hub_height'' = demo_turbine ''hub_height''"
    by auto
  from ex b hub have "\<exists>t'. snd (windturbine_smooth example_state 0 Omitted) = Inr t' \<and>
      t' ''hub_height'' = Some (Num 80)" by auto
  with a example_turbine(1) show ?thesis by blast
qed

text \<open>
  C4, as stated, fails: a call that is given a parameter dictionary holding only \<open>eta\<close>
  changes that dictionary, and a call that omits \<open>params\<close> changes the shared default
  dictionary, which the next such call reads.
\<close>

theorem params_dict_mutated:
  "heap (fst (windturbine_smooth example_state 0 (Ref 1))) 1 \<noteq> heap example_state 1 \<and>
   default_params (fst (windturbine_smooth example_state 0 Omitted)) \<noteq> default_params example_state"
proof
  have "heap (fst (windturbine_smooth example_state 0 (Ref 1))) 1
          = Some (fill_defaults [''eta'' \<mapsto> Num (9 / 10)])"
    by (simp add: heap_windturbine_smooth heap_after_params example_state_def)
  moreover have "fill_defaults [''eta'' \<mapsto> Num (9 / 10)] ''sigma'' \<noteq> [''eta'' \<mapsto> Num (9 / 10)] ''sigma''"
    by (simp add: fill_defaults_apply)
  ultimately show "heap (fst (windturbine_smooth example_state 0 (Ref 1))) 1 \<noteq> heap example_state 1"
    by (auto simp: example_state_def)
next
  have "default_params (fst (windturbine_smooth example_state 0 Omitted)) ''sigma''
          = Some (Num (229 / 100))"
    by (simp add: default_windturbine_smooth default_after_params fill_defaults_apply
        example_state_def)
  moreover have "default_params example_state ''sigma'' = None"
    by (simp add: example_state_def)
  ultimately show "default_params (fst (windturbine_smooth example_state 0 Omitted))
                     \<noteq> default_params example_state"
    by auto
qed

text \<open>
  C4, amended. A call adds the default entries \<open>eta = 0.95\<close>, \<open>Delta_v = 1.27\<close>,
  \<open>sigma = 2.29\<close>, for the keys that are absent, to the dictionary passed as \<open>params\<close>, or to
  the shared default dictionary when \<open>params\<close> is omitted. It changes no entry that is
  present and no other dictionary, and the parameter values a later call reads from the
  same \<open>params\<close> are those this call read.
\<close>

theorem params_only_gain_defaults:
  "heap (fst (windturbine_smooth s turbine params)) a
     = map_option (\<lambda>d. if params = Ref a then default_value ++ d else d) (heap s a)
   \<and> default_params (fst (windturbine_smooth s turbine params))
     = (if params = Omitted then default_value ++ default_params s else default_params s)
   \<and> params_dict (fst (windturbine_smooth s turbine params)) params = params_dict s params"
  by (simp add: heap_windturbine_smooth heap_after_params default_windturbine_smooth
      default_after_params fill_defaults_map_add params_dict_after
      split: option.splits)

text \<open>
  C10. Two calls whose turbine dictionaries have equal \<open>V\<close> and \<open>POW\<close> entries and which
  read equal values of \<open>eta\<close>, \<open>Delta_v\<close> and \<open>sigma\<close> have the same outcome: the same
  velocities, power sequence and rated power, or the same error. Two calls that both omit
  \<open>params\<close> read equal values in all states where the shared default dictionary holds only
  default entries, and every call leads from such a state to such a state.
\<close>

theorem windturbine_smooth_deterministic:
  assumes "heap s1 t1 = Some d1" and "heap s2 t2 = Some d2"
    and "d1 ''V'' = d2 ''V''" and "d1 ''POW'' = d2 ''POW''"
    and "(p1 = Omitted \<and> p2 = Omitted \<and> defaults_intact s1 \<and> defaults_intact s2) \<or>
         (params_dict s1 p1 ''eta'' = params_dict s2 p2 ''eta'' \<and>
          params_dict s1 p1 ''Delta_v'' = params_dict s2 p2 ''Delta_v'' \<and>
          params_dict s1 p1 ''sigma'' = params_dict s2 p2 ''sigma'')"
  shows "outcome (snd (windturbine_smooth s1 t1 p1)) = outcome (snd (windturbine_smooth s2 t2 p2)) \<and>
         (defaults_intact s1 \<longrightarrow> defaults_intact (fst (windturbine_smooth s1 t1 p1)))"
proof -
  have "params_dict s1 p1 ''eta'' = params_dict s2 p2 ''eta'' \<and>
        params_dict s1 p1 ''Delta_v'' = params_dict s2 p2 ''Delta_v'' \<and>
        params_dict s1 p1 ''sigma'' = params_dict s2 p2 ''sigma''"
    using assms(5) by (auto simp: intact_params)
  then show ?thesis
    using outcome_depends [OF assms(1-4)] intact_preserved by blast
qed

theorem windturbine_smooth_deterministic_witness:
  "defaults_intact example_state \<and>
   defaults_intact (fst (windturbine_smooth example_state 0 Omitted)) \<and>
   heap (fst (windturbine_smooth example_state 0 Omitted)) 0 = Some demo_turbine \<and>
   outcome (snd (windturbine_smooth example_state 0 Omitted))
     = outcome (snd (windturbine_smooth (fst (windturbine_smooth example_state 0 Omitted)) 0 Omitted))"
proof -
  have i1: "defaults_intact example_state"
    by (simp add: defaults_intact_def example_state_def)
  have i2: "defaults_intact (fst (windturbine_smooth example_state 0 Omitted))"
    using i1 by (rule intact_preserved)
  have h2: "heap (fst (windturbine_smooth example_state 0 Omitted)) 0 = Some demo_turbine"
    by (simp add: heap_windturbine_smooth heap_after_params example_turbine)
  show ?thesis
    using windturbine_smooth_deterministic [OF example_turbine(1) h2 refl refl,
        of Omitted Omitted] i1 i2 h2
    by simp
qed

section \<open>The smoothed curve\<close>

text \<open>
  C1. For a turbine dictionary with a non-empty, strictly ascending \<open>V\<close>, an equally long
  \<open>POW\<close> and numeric parameters \<open>eta\<close>, \<open>Delta_v\<close>, \<open>sigma > 0\<close>, the call returns a
  configuration computed as follows: \<open>pr\<close> is \<open>POW\<close> interpolated linearly (flat outside
  the range of \<open>V\<close>) at the 1001 grid points; \<open>kr\<close> is the Gaussian kernel at the grid
  points; \<open>cv\<close> is their "same" convolution times \<open>0.1\<close>; \<open>pw\<close> is \<open>cv\<close> interpolated
  linearly at the 72 output points; the returned velocities are the output points, the
  returned power is \<open>eta\<close> times \<open>pw\<close>, and the rated power is its maximum.
\<close>

theorem windturbine_smooth_algorithm:
  assumes "heap s turbine = Some t"
    and "t ''V'' = Some (Arr vs)" and "t ''POW'' = Some (Arr ps)"
    and "vs \<noteq> []" and "length ps = length vs" and "sorted_wrt (<) vs"
    and "params_dict s params ''eta'' = Some (Num et)"
    and "params_dict s params ''Delta_v'' = Some (Num dv)"
    and "params_dict s params ''sigma'' = Some (Num sg)"
    and "0 < sg"
  shows "\<exists>s' t' pr kr cv pw.
           windturbine_smooth s turbine params = (s', Inr t') \<and>
           length pr = 1001 \<and> (\<forall>i<1001. spec_lin_interp vs ps (spec_grid i) (pr ! i)) \<and>
           length kr = 1001 \<and> (\<forall>i<1001. kr ! i = spec_kernel sg dv (spec_grid i)) \<and>
           length cv = 1001 \<and> (\<forall>i<1001. cv ! i = (1 / 10) * spec_same_convolution pr kr i) \<and>
           length pw = 72 \<and>
           (\<forall>k<72. spec_lin_interp (map spec_grid [0..<1001]) cv (spec_out_grid k) (pw ! k)) \<and>
           t' ''V'' = Some (Arr (map spec_out_grid [0..<72])) \<and>
           t' ''POW'' = Some (Arr (map (\<lambda>y. et * y) pw)) \<and>
           t' ''P'' = Some (Num (Max (set (map (\<lambda>y. et * y) pw))))"
proof -
  let ?pr = "power_reg vs ps" and ?kr = "kernel_reg sg dv" and ?cv = "convolution sg dv vs ps"
  let ?pw = "map (interp1 velocities_reg ?cv) velocities_new"
  have krne: "?kr \<noteq> []" using length_kernel_reg [of sg dv] by auto
  have vrne: "velocities_reg \<noteq> []" using length_velocities_reg by auto
  have pn: "power_new et dv sg vs ps = map (\<lambda>y. et * y) ?pw"
    by (simp add: power_new_def)
  have 1: "\<forall>i<1001. spec_lin_interp vs ps (spec_grid i) (?pr ! i)"
  proof (intro allI impI)
    fix i :: nat assume i: "i < 1001"
    have "?pr ! i = interp1 vs ps (spec_grid i)"
      using i by (simp add: power_reg_def length_velocities_reg nth_velocities_reg)
    then show "spec_lin_interp vs ps (spec_grid i) (?pr ! i)"
      using interp1_spec [OF assms(4,5,6)] by simp
  qed
  have 2: "\<forall>i<1001. ?kr ! i = spec_kernel sg dv (spec_grid i)"
    by (simp add: kernel_reg_def length_velocities_reg nth_velocities_reg kernel_eq_spec)
  have 3: "\<forall>i<1001. ?cv ! i = (1 / 10) * spec_same_convolution ?pr ?kr i"
  proof (intro allI impI)
    fix i :: nat assume i: "i < 1001"
    then have il: "i < length ?pr" by (simp add: length_power_reg)
    have "i < length (fftconvolve_same ?pr ?kr)"
      using il by (simp add: length_fftconvolve_same [OF krne])
    then have "?cv ! i = (1 / 10) * fftconvolve_same ?pr ?kr ! i"
      unfolding convolution_def by (rule nth_map)
    then show "?cv ! i = (1 / 10) * spec_same_convolution ?pr ?kr i"
      by (simp only: fftconvolve_same_spec [OF krne il])
  qed
  have 4: "\<forall>k<72. spec_lin_interp (map spec_grid [0..<1001]) ?cv (spec_out_grid k) (?pw ! k)"
  proof (intro allI impI)
    fix k :: nat assume k: "k < 72"
    have lc: "length ?cv = length velocities_reg"
      by (simp add: length_convolution length_velocities_reg)
    have "?pw ! k = interp1 velocities_reg ?cv (spec_out_grid k)"
      using k by (simp add: length_velocities_new nth_velocities_new)
    then show "spec_lin_interp (map spec_grid [0..<1001]) ?cv (spec_out_grid k) (?pw ! k)"
      using interp1_spec [OF vrne lc velocities_reg_strict, of "spec_out_grid k"]
      by (simp only: velocities_reg_spec)
  qed
  have 5: "length ?pw = 72" by (simp add: length_velocities_new)
  have lp: "length ?pr = 1001" by (rule length_power_reg)
  have lk: "length ?kr = 1001" by (rule length_kernel_reg)
  have lc: "length ?cv = 1001" by (rule length_convolution)
  let ?s' = "if 1 / 100 < hd (power_new et dv sg vs ps)
             then logger_warn (after_params s params) oversmoothing_msg else after_params s params"
  let ?t0 = "if params = Ref turbine then fill_defaults t else t"
  let ?t' = "?t0(''V'' \<mapsto> Arr velocities_new,
                 ''POW'' \<mapsto> Arr (power_new et dv sg vs ps),
                 ''P'' \<mapsto> Num (Max (set (power_new et dv sg vs ps))))"
  have r: "windturbine_smooth s turbine params = (?s', Inr ?t')"
    by (rule windturbine_smooth_result [OF assms(1-5) assms(7-9)])
  have "?t' ''V'' = Some (Arr velocities_new)" by simp
  then have tv: "?t' ''V'' = Some (Arr (map spec_out_grid [0..<72]))"
    by (simp only: velocities_new_spec)
  have "?t' ''POW'' = Some (Arr (power_new et dv sg vs ps))" by simp
  then have tp: "?t' ''POW'' = Some (Arr (map (\<lambda>y. et * y) ?pw))"
    by (simp only: pn)
  have "?t' ''P'' = Some (Num (Max (set (power_new et dv sg vs ps))))" by simp
  then have tP: "?t' ''P'' = Some (Num (Max (set (map (\<lambda>y. et * y) ?pw))))"
    by (simp only: pn)
  show ?thesis
    apply (rule exI [of _ ?s'])
    apply (rule exI [of _ ?t'])
    apply (rule exI [of _ ?pr])
    apply (rule exI [of _ ?kr])
    apply (rule exI [of _ ?cv])
    apply (rule exI [of _ ?pw])
    apply (intro conjI)
    apply (fact r)
    apply (fact lp)
    apply (fact 1)
    apply (fact lk)
    apply (fact 2)
    apply (fact lc)
    apply (fact 3)
    apply (fact 5)
    apply (fact 4)
    apply (fact tv)
    apply (fact tp)
    apply (fact tP)
    done
qed


theorem windturbine_smooth_algorithm_witness:
  "heap example_state 0 = Some demo_turbine \<and>
   demo_turbine ''V'' = Some (Arr [0, 5, 10, 15, 20, 25]) \<and>
   demo_turbine ''POW'' = Some (Arr [0, 0, 100, 400, 800, 800]) \<and>
   sorted_wrt (<) [0, 5, 10, 15, 20, 25 :: real] \<and>
   params_dict example_state Omitted ''sigma'' = Some (Num (229 / 100)) \<and>
   (0::real) < 229 / 100 \<and>
   (\<exists>s' t' pr kr cv pw.
      windturbine_smooth example_state 0 Omitted = (s', Inr t') \<and>
      length pr = 1001 \<and> pr ! 0 = 0 \<and>
      kr ! 0 = spec_kernel (229 / 100) (127 / 100) (- 50) \<and>
      cv ! 0 = (1 / 10) * spec_same_convolution pr kr 0 \<and>
      length pw = 72 \<and>
      t' ''V'' = Some (Arr (map spec_out_grid [0..<72])) \<and>
      t' ''POW'' = Some (Arr (map (\<lambda>y. 95 / 100 * y) pw)) \<and>
      t' ''P'' = Some (Num (Max (set (map (\<lambda>y. 95 / 100 * y) pw)))))"
proof -
  have srt: "sorted_wrt (<) [0, 5, 10, 15, 20, 25 :: real]" by simp
  have ne: "[0, 5, 10, 15, 20, 25 :: real] \<noteq> []" by simp
  have len: "length [0, 0, 100, 400, 800, 800 :: real] = length [0, 5, 10, 15, 20, 25 :: real]"
    by simp
  have sg: "(0::real) < 229 / 100" by simp
  from windturbine_smooth_algorithm [OF example_turbine ne len srt example_params sg]
  obtain s' t' pr kr cv pw where
    r: "windturbine_smooth example_state 0 Omitted = (s', Inr t')"
    and lp: "length pr = 1001"
    and ip: "\<forall>i<1001. spec_lin_interp [0, 5, 10, 15, 20, 25] [0, 0, 100, 400, 800, 800]
                          (spec_grid i) (pr ! i)"
    and kr: "\<forall>i<1001. kr ! i = spec_kernel (229 / 100) (127 / 100) (spec_grid i)"
    and cv: "\<forall>i<1001. cv ! i = (1 / 10) * spec_same_convolution pr kr i"
    and lw: "length pw = 72"
    and tv: "t' ''V'' = Some (Arr (map spec_out_grid [0..<72]))"
    and tp: "t' ''POW'' = Some (Arr (map (\<lambda>y. 95 / 100 * y) pw))"
    and tP: "t' ''P'' = Some (Num (Max (set (map (\<lambda>y. 95 / 100 * y) pw))))"
    by blast
  have g0: "spec_grid 0 = - 50" by (simp add: spec_grid_def)
  from ip have "spec_lin_interp [0, 5, 10, 15, 20, 25] [0, 0, 100, 400, 800, 800] (spec_grid 0) (pr ! 0)"
    by simp
  then have p0: "pr ! 0 = 0" by (simp add: spec_lin_interp_def g0)
  from kr g0 have k0: "kr ! 0 = spec_kernel (229 / 100) (127 / 100) (- 50)" by simp
  from cv have c0: "cv ! 0 = (1 / 10) * spec_same_convolution pr kr 0" by simp
  have "\<exists>s' t' pr kr cv pw.
      windturbine_smooth example_state 0 Omitted = (s', Inr t') \<and>
      length pr = 1001 \<and> pr ! 0 = 0 \<and>
      kr ! 0 = spec_kernel (229 / 100) (127 / 100) (- 50) \<and>
      cv ! 0 = (1 / 10) * spec_same_convolution pr kr 0 \<and>
      length pw = 72 \<and>
      t' ''V'' = Some (Arr (map spec_out_grid [0..<72])) \<and>
      t' ''POW'' = Some (Arr (map (\<lambda>y. 95 / 100 * y) pw)) \<and>
      t' ''P'' = Some (Num (Max (set (map (\<lambda>y. 95 / 100 * y) pw))))"
    using r lp p0 k0 c0 lw tv tp tP by blast
  then show ?thesis
    using example_turbine srt example_params(3) sg by blast
qed

end
